theory Spec2Isabelle
  imports Main
begin

section \<open>The Enphase Envoy integration: update coordination and realtime streaming\<close>

text \<open>
  A shallow embedding of \<^verbatim>\<open>custom_components/enphase_envoy/__init__.py\<close>:
  the update method handed to the poll coordinator, the initial refresh of
  \<^verbatim>\<open>async_setup_entry\<close>, the throttled realtime publisher
  \<^verbatim>\<open>update_production_meters\<close>, the supervisor loop
  \<^verbatim>\<open>read_realtime_updates\<close> and the stop and unload handlers.
\<close>

subsection \<open>Python values, exceptions and dictionaries\<close>

text \<open>
  A metric value is a number or Python's \<^verbatim>\<open>None\<close>. Numbers are kept abstract
  (type \<open>'n\<close>) and compared with HOL equality.
\<close>

datatype 'n pyval = PyNone | PyNum 'n

text \<open>
  The exceptions that occur in the module. \<^verbatim>\<open>httpx.HTTPStatusError\<close> is a subclass of
  \<^verbatim>\<open>httpx.HTTPError\<close>; \<open>HTTPRequestError\<close> stands for every other instance of
  \<^verbatim>\<open>httpx.HTTPError\<close>. \<open>AsyncTimeoutError\<close> is what the
  \<^verbatim>\<open>async_timeout.timeout\<close> block raises when it expires.
\<close>

datatype py_exception =
    HTTPStatusError
  | HTTPRequestError
  | AsyncTimeoutError
  | ConfigEntryAuthFailed
  | UpdateFailed
  | ConfigEntryNotReady
  | AttributeError
  | KeyError
  | CancelledError
  | OtherError

definition isinstance_HTTPStatusError :: "py_exception \<Rightarrow> bool" where
  "isinstance_HTTPStatusError e = (e = HTTPStatusError)"

definition isinstance_HTTPError :: "py_exception \<Rightarrow> bool" where
  "isinstance_HTTPError e = (e = HTTPStatusError \<or> e = HTTPRequestError)"

type_synonym 'n snapshot = "string \<rightharpoonup> 'n pyval"

text \<open>\<^verbatim>\<open>d.get(key)\<close>: a missing key reads as \<^verbatim>\<open>None\<close>.\<close>

definition dict_get :: "('k \<rightharpoonup> 'n pyval) \<Rightarrow> 'k \<Rightarrow> 'n pyval" where
  "dict_get d k = (case d k of None \<Rightarrow> PyNone | Some v \<Rightarrow> v)"

subsection \<open>The poll coordinator\<close>

text \<open>
  What one call of \<^verbatim>\<open>envoy_reader.getData()\<close> under the timeout block does: it returns
  (and \<^verbatim>\<open>envoy_reader.all_values\<close> then reads as the given snapshot), it raises, or the
  timeout expires first. The reader is an external collaborator: its behaviour is a parameter,
  a function of the number of earlier calls and of the reader's \<^verbatim>\<open>get_inverters\<close> flag.
\<close>

datatype 'n getData_outcome =
    Returned "'n snapshot"
  | Raised py_exception
  | TimedOut

type_synonym 'n reader_behaviour = "nat \<Rightarrow> bool \<Rightarrow> 'n getData_outcome"

text \<open>
  The state the polling path reads and writes: the reader's capability flag, how often
  \<^verbatim>\<open>getData\<close> and \<^verbatim>\<open>_sync_store()\<close> were called, and \<^verbatim>\<open>coordinator.data\<close>
  (\<open>None\<close> before the first successful refresh).
\<close>

record 'n poll_state =
  get_inverters :: bool
  getData_calls :: nat
  sync_store_calls :: nat
  coordinator_data :: "'n snapshot option"

text \<open>
  \<^verbatim>\<open>async_update_data\<close> (lines 79--96). The two \<^verbatim>\<open>except\<close> clauses are tried in the
  source's order; any other exception, and the timeout, leave the function as they are.
  \<^verbatim>\<open>_sync_store()\<close> stands after the timeout block and is reached only when nothing was raised.
\<close>

definition async_update_data ::
  "'n reader_behaviour \<Rightarrow> 'n poll_state \<Rightarrow> (py_exception + 'n snapshot) \<times> 'n poll_state" where
  "async_update_data env s =
     (let s1 = s\<lparr>getData_calls := Suc (getData_calls s)\<rparr> in
      case env (getData_calls s) (get_inverters s) of
        TimedOut \<Rightarrow> (Inl AsyncTimeoutError, s1)
      | Raised err \<Rightarrow>
          if isinstance_HTTPStatusError err then (Inl ConfigEntryAuthFailed, s1)
          else if isinstance_HTTPError err then (Inl UpdateFailed, s1)
          else (Inl err, s1)
      | Returned all_values \<Rightarrow>
          (Inr all_values, s1\<lparr>sync_store_calls := Suc (sync_store_calls s1)\<rparr>))"

text \<open>
  The host's \<^verbatim>\<open>DataUpdateCoordinator\<close> is not part of this repository. One refresh of it
  awaits the update method once and assigns the result to \<^verbatim>\<open>coordinator.data\<close>
  (\<^verbatim>\<open>self.data = await self._async_update_data()\<close>); an exception skips the assignment.
\<close>

definition coordinator_refresh ::
  "'n reader_behaviour \<Rightarrow> 'n poll_state \<Rightarrow> py_exception option \<times> 'n poll_state" where
  "coordinator_refresh env s =
     (case async_update_data env s of
        (Inr d, s') \<Rightarrow> (None, s'\<lparr>coordinator_data := Some d\<rparr>)
      | (Inl e, s') \<Rightarrow> (Some e, s'))"

text \<open>
  \<^verbatim>\<open>coordinator.async_config_entry_first_refresh()\<close> of the host: one refresh, an authentication
  failure is raised again as it is, every other failure as \<^verbatim>\<open>ConfigEntryNotReady\<close>.
  (The host also lets \<^verbatim>\<open>NotImplementedError\<close> and \<^verbatim>\<open>ConfigEntryError\<close> through as they
  are; the reader outcomes considered here do not include them.)
\<close>

definition async_config_entry_first_refresh ::
  "'n reader_behaviour \<Rightarrow> 'n poll_state \<Rightarrow> (py_exception + unit) \<times> 'n poll_state" where
  "async_config_entry_first_refresh env s =
     (case coordinator_refresh env s of
        (None, s') \<Rightarrow> (Inr (), s')
      | (Some e, s') \<Rightarrow>
          (Inl (if e = ConfigEntryAuthFailed then ConfigEntryAuthFailed else ConfigEntryNotReady), s'))"

text \<open>
  The initial refresh of \<^verbatim>\<open>async_setup_entry\<close> (lines 108--112): on
  \<^verbatim>\<open>ConfigEntryAuthFailed\<close> the reader's \<^verbatim>\<open>get_inverters\<close> is switched off and the first
  refresh is awaited again, outside any \<^verbatim>\<open>try\<close>.
\<close>

definition initial_refresh ::
  "'n reader_behaviour \<Rightarrow> 'n poll_state \<Rightarrow> (py_exception + unit) \<times> 'n poll_state" where
  "initial_refresh env s =
     (case async_config_entry_first_refresh env s of
        (Inl e, s1) \<Rightarrow>
          if e = ConfigEntryAuthFailed
          then async_config_entry_first_refresh env (s1\<lparr>get_inverters := False\<rparr>)
          else (Inl e, s1)
      | (Inr u, s1) \<Rightarrow> (Inr u, s1))"

text \<open>The scheduler's refreshes, one after the other.\<close>

fun poll_cycles :: "'n reader_behaviour \<Rightarrow> nat \<Rightarrow> 'n poll_state \<Rightarrow> 'n poll_state" where
  "poll_cycles env 0 s = s"
| "poll_cycles env (Suc n) s = snd (coordinator_refresh env (poll_cycles env n s))"

subsection \<open>The throttled metric publisher\<close>

text \<open>
  Modelled from the spec: the classes \<^verbatim>\<open>StreamData\<close> and its per-phase reading live in the
  reader module, which is not among the sources. Per the spec a meter frame holds, per phase,
  watts, volts, amps, apparent power, power factor, reactive power and frequency, for production
  and for consumption. The field names are the ones the publisher reads; the two dictionaries are
  keyed by the phase name, and a missing phase makes \<^verbatim>\<open>streamdata.production[phase]\<close> raise
  \<^verbatim>\<open>KeyError\<close>.
\<close>

record 'n PhaseData =
  watts :: "'n pyval"
  volt :: "'n pyval"
  amps :: "'n pyval"
  volt_ampere :: "'n pyval"
  pf :: "'n pyval"
  var :: "'n pyval"
  hz :: "'n pyval"

record 'n StreamData =
  production :: "string \<rightharpoonup> 'n PhaseData"
  consumption :: "string \<rightharpoonup> 'n PhaseData"

text \<open>
  \<^verbatim>\<open>new_data\<close> is a Python dictionary, iterated in insertion order: an association list
  with one entry per key. Assigning to a key that is present keeps its position.
\<close>

fun dict_set :: "('k \<times> 'v) list \<Rightarrow> 'k \<Rightarrow> 'v \<Rightarrow> ('k \<times> 'v) list" where
  "dict_set [] k v = [(k, v)]"
| "dict_set ((k', v') # d) k v =
     (if k' = k then (k, v) # d else (k', v') # dict_set d k v)"

fun dict_update :: "('k \<times> 'v) list \<Rightarrow> ('k \<times> 'v) list \<Rightarrow> ('k \<times> 'v) list" where
  "dict_update d [] = d"
| "dict_update d ((k, v) # items) = dict_update (dict_set d k v) items"

text \<open>
  The dictionary literal of lines 148--157 for one phase. \<open>process_production_value\<close> is the
  reader's value-adjustment policy, a parameter.
\<close>

definition phase_entries ::
  "('n pyval \<Rightarrow> 'n pyval) \<Rightarrow> string \<Rightarrow> 'n PhaseData \<Rightarrow> 'n PhaseData \<Rightarrow> (string \<times> 'n pyval) list" where
  "phase_entries process_production_value phase pdata cdata =
     (let production_watts = process_production_value (watts pdata) in
      [(''production_'' @ phase, production_watts),
       (''voltage_'' @ phase, volt pdata),
       (''ampere_'' @ phase, amps pdata),
       (''apparent_power_'' @ phase, volt_ampere pdata),
       (''power_factor'' @ phase, pf pdata),
       (''reactive_power_'' @ phase, var pdata),
       (''frequency_'' @ phase, hz pdata),
       (''consumption_'' @ phase, watts cdata)])"

text \<open>The first loop of \<^verbatim>\<open>update_production_meters\<close> (lines 142--158).\<close>

fun collect_new_data ::
  "('n pyval \<Rightarrow> 'n pyval) \<Rightarrow> 'n StreamData \<Rightarrow> string list \<Rightarrow> (string \<times> 'n pyval) list
     \<Rightarrow> py_exception + (string \<times> 'n pyval) list" where
  "collect_new_data ppv streamdata [] new_data = Inr new_data"
| "collect_new_data ppv streamdata (phase # phases) new_data =
     (case production streamdata phase of
        None \<Rightarrow> Inl KeyError
      | Some pdata \<Rightarrow>
          (case consumption streamdata phase of
             None \<Rightarrow> Inl KeyError
           | Some cdata \<Rightarrow>
               collect_new_data ppv streamdata phases
                 (dict_update new_data (phase_entries ppv phase pdata cdata))))"

definition new_data_of ::
  "('n pyval \<Rightarrow> 'n pyval) \<Rightarrow> 'n StreamData \<Rightarrow> py_exception + (string \<times> 'n pyval) list" where
  "new_data_of ppv streamdata = collect_new_data ppv streamdata [''l1'', ''l2'', ''l3''] []"

text \<open>
  What the second loop does, in order: an assignment \<^verbatim>\<open>coordinator.data[key] = value\<close> and
  a call of \<^verbatim>\<open>async_write_ha_state()\<close> on the entity registered for the key.
\<close>

datatype ('n, 'e) publish_event = Write string "'n pyval" | Notify string 'e

text \<open>
  The second loop (lines 160--166). \<open>live_entities\<close> maps a key to its entity; an entity
  object is truthy, so \<^verbatim>\<open>live_entities.get(key, False)\<close> holds exactly for a registered key.
  The publisher exists only after the initial refresh has succeeded, so \<^verbatim>\<open>coordinator.data\<close>
  is a dictionary. The result is the updated \<^verbatim>\<open>coordinator.data\<close> and the effects in the
  order they happen.
\<close>

fun publish_items ::
  "(string \<rightharpoonup> 'e) \<Rightarrow> (string \<times> 'n pyval) list \<Rightarrow> 'n snapshot
     \<Rightarrow> 'n snapshot \<times> ('n, 'e) publish_event list" where
  "publish_items live_entities [] data = (data, [])"
| "publish_items live_entities ((key, value) # items) data =
     (case live_entities key of
        None \<Rightarrow> publish_items live_entities items data
      | Some entity \<Rightarrow>
          if dict_get data key \<noteq> value
          then (case publish_items live_entities items (data(key \<mapsto> value)) of
                  (data', evs) \<Rightarrow> (data', Write key value # Notify key entity # evs))
          else publish_items live_entities items data)"

text \<open>
  \<^verbatim>\<open>update_production_meters\<close> under its \<^verbatim>\<open>Throttle\<close> decorator. Whether the host's
  throttle admits the call is the parameter \<open>admitted\<close>; a call that is not admitted does not
  run the body.
\<close>

definition update_production_meters ::
  "bool \<Rightarrow> ('n pyval \<Rightarrow> 'n pyval) \<Rightarrow> (string \<rightharpoonup> 'e) \<Rightarrow> 'n StreamData \<Rightarrow> 'n snapshot
     \<Rightarrow> py_exception + 'n snapshot \<times> ('n, 'e) publish_event list" where
  "update_production_meters admitted ppv live_entities streamdata data =
     (if \<not> admitted then Inr (data, [])
      else case new_data_of ppv streamdata of
             Inl e \<Rightarrow> Inl e
           | Inr new_data \<Rightarrow> Inr (publish_items live_entities new_data data))"

subsection \<open>The realtime stream supervisor\<close>

datatype CoreState = not_running | starting | running | stopping | final_write | stopped









subsection \<open>Starting, stopping and unloading the stream task\<close>

text \<open>
  An \<^verbatim>\<open>asyncio\<close> task: running, with a cancellation requested but not yet delivered,
  or done (returned, cancelled, or failed with an exception).
\<close>

datatype task_status = Running | CancelRequested | TaskReturned | TaskCancelled | TaskFailed py_exception

text \<open>The values stored under \<^verbatim>\<open>"realtime_loop"\<close>: \<^verbatim>\<open>None\<close>, \<^verbatim>\<open>False\<close> or the task.\<close>

datatype loop_slot = SlotNone | SlotFalse | SlotTask

text \<open>
  \<open>task\<close> is the variable of \<^verbatim>\<open>async_setup_entry\<close> that \<^verbatim>\<open>_async_stop\<close> closes over
  (\<open>None\<close> for Python's \<^verbatim>\<open>None\<close>, else the status of the one task); \<open>realtime_loop\<close> is
  the entry of \<^verbatim>\<open>hass.data[DOMAIN][entry.entry_id]\<close> (\<open>None\<close> when the key is absent);
  the counters record the calls of \<^verbatim>\<open>task.cancel()\<close> and the completed \<^verbatim>\<open>await task\<close>.
\<close>

record entry_state =
  task :: "task_status option"
  realtime_loop :: "loop_slot option"
  cancel_calls :: nat
  awaited :: nat
  entry_loaded :: bool

text \<open>\<^verbatim>\<open>task.cancel()\<close>: a task that is done is left alone.\<close>

definition task_cancel :: "task_status \<Rightarrow> task_status" where
  "task_cancel st = (if st = Running \<or> st = CancelRequested then CancelRequested else st)"

text \<open>
  \<^verbatim>\<open>await task\<close>: the caller is suspended until the task is done. A task with a pending
  cancellation request ends cancelled and the awaiting caller sees \<^verbatim>\<open>CancelledError\<close>; a
  failed task hands its exception to the caller. A task that is still running without any
  request is awaited under \<^verbatim>\<open>task.cancel()\<close> only, so that case is not reached; it is
  mapped to the cancelled outcome.
\<close>

definition await_task :: "task_status \<Rightarrow> py_exception option \<times> task_status" where
  "await_task st =
     (case st of
        TaskReturned \<Rightarrow> (None, TaskReturned)
      | TaskFailed e \<Rightarrow> (Some e, TaskFailed e)
      | _ \<Rightarrow> (Some CancelledError, TaskCancelled))"

text \<open>
  The end of \<^verbatim>\<open>async_setup_entry\<close> (lines 188--207): the task is created only when realtime
  updates are enabled, and the variable \<open>task\<close> is stored under \<^verbatim>\<open>"realtime_loop"\<close>.
\<close>

definition setup_realtime :: "bool \<Rightarrow> entry_state" where
  "setup_realtime enable_realtime_updates =
     (let task = (if enable_realtime_updates then Some Running else None) in
      \<lparr>task = task,
       realtime_loop = Some (case task of None \<Rightarrow> SlotNone | Some _ \<Rightarrow> SlotTask),
       cancel_calls = 0, awaited = 0, entry_loaded = True\<rparr>)"

text \<open>
  \<^verbatim>\<open>_async_stop\<close> (lines 193--198): \<^verbatim>\<open>task.cancel()\<close> on the closed-over variable, which
  raises \<^verbatim>\<open>AttributeError\<close> when the variable is \<^verbatim>\<open>None\<close>; then the slot is set to
  \<^verbatim>\<open>False\<close>, which raises \<^verbatim>\<open>KeyError\<close> when the entry's data has been removed. The task
  is not awaited.
\<close>

definition async_stop :: "entry_state \<Rightarrow> py_exception + entry_state" where
  "async_stop s =
     (case task s of
        None \<Rightarrow> Inl AttributeError
      | Some st \<Rightarrow>
          if \<not> entry_loaded s then Inl KeyError
          else Inr (s\<lparr>task := Some (task_cancel st),
                      cancel_calls := Suc (cancel_calls s),
                      realtime_loop := Some SlotFalse\<rparr>))"

text \<open>
  \<^verbatim>\<open>async_unload_entry\<close> (lines 210--225). Reading the entry's data raises \<^verbatim>\<open>KeyError\<close>
  when it has been removed. \<^verbatim>\<open>.get("realtime_loop", False)\<close> is truthy only for a task.
  Inside \<^verbatim>\<open>suppress(asyncio.CancelledError)\<close> the task is cancelled and awaited; any other
  exception of the task leaves the handler. \<open>unload_ok\<close> is the result of the host's
  \<^verbatim>\<open>async_unload_platforms\<close>. The slot holds the task exactly when one was created (line 206
  stores the variable \<open>task\<close>), so a task in the slot with \<open>task = None\<close> does not arise from
  \<open>setup_realtime\<close>; that combination is mapped to \<^verbatim>\<open>AttributeError\<close>.
\<close>

definition async_unload_entry :: "bool \<Rightarrow> entry_state \<Rightarrow> py_exception + bool \<times> entry_state" where
  "async_unload_entry unload_ok s =
     (let finish = (\<lambda>s'. Inr (unload_ok, if unload_ok then s'\<lparr>entry_loaded := False\<rparr> else s')) in
      if \<not> entry_loaded s then Inl KeyError
      else case realtime_loop s of
        Some SlotTask \<Rightarrow>
          (case task s of
             None \<Rightarrow> Inl AttributeError
           | Some st \<Rightarrow>
               (case await_task (task_cancel st) of
                  (res, st') \<Rightarrow>
                    let s1 = s\<lparr>task := Some st', cancel_calls := Suc (cancel_calls s),
                                awaited := Suc (awaited s)\<rparr> in
                    if res = None \<or> res = Some CancelledError
                    then finish (s1\<lparr>realtime_loop := Some SlotFalse\<rparr>)
                    else Inl (case res of Some e \<Rightarrow> e | None \<Rightarrow> OtherError)))
      | _ \<Rightarrow> finish s)"

subsection \<open>Concrete inputs\<close>

text \<open>A fresh polling state, as \<^verbatim>\<open>async_setup_entry\<close> builds it (\<^verbatim>\<open>inverters=True\<close>).\<close>

definition poll_start :: "nat poll_state" where
  "poll_start =
     \<lparr>get_inverters = True, getData_calls = 0, sync_store_calls = 0, coordinator_data = None\<rparr>"

text \<open>A reader whose every call ends with an HTTP status error.\<close>

definition reader_auth_fails :: "nat reader_behaviour" where
  "reader_auth_fails n inverters = Raised HTTPStatusError"

text \<open>A reader that is refused only while it asks for the inverter details.\<close>

definition reader_auth_fails_with_inverters :: "nat reader_behaviour" where
  "reader_auth_fails_with_inverters n inverters =
     (if inverters then Raised HTTPStatusError else Returned [''production'' \<mapsto> PyNum 5])"

text \<open>
  A value-adjustment policy for the examples: negative production is clamped to zero.
\<close>

definition clamp_negative :: "int pyval \<Rightarrow> int pyval" where
  "clamp_negative v = (case v of PyNone \<Rightarrow> PyNone | PyNum n \<Rightarrow> PyNum (max 0 n))"

text \<open>A frame with three phases, the first with negative production.\<close>

definition sample_phase :: "int \<Rightarrow> int PhaseData" where
  "sample_phase w =
     \<lparr>watts = PyNum w, volt = PyNum 230, amps = PyNum 2, volt_ampere = PyNum 460,
      pf = PyNum 1, var = PyNum 0, hz = PyNum 50\<rparr>"

definition sample_frame :: "int StreamData" where
  "sample_frame =
     \<lparr>production = [''l1'' \<mapsto> sample_phase (- 5), ''l2'' \<mapsto> sample_phase 200,
                    ''l3'' \<mapsto> sample_phase 300],
      consumption = [''l1'' \<mapsto> sample_phase 10, ''l2'' \<mapsto> sample_phase 20,
                     ''l3'' \<mapsto> sample_phase 30]\<rparr>"

text \<open>Two registered entities, and a snapshot in which one of their values is current.\<close>

definition sample_live :: "string \<rightharpoonup> nat" where
  "sample_live = [''production_l1'' \<mapsto> 1, ''voltage_l1'' \<mapsto> 2]"

definition sample_data :: "int snapshot" where
  "sample_data = [''voltage_l1'' \<mapsto> PyNum 230, ''production_l2'' \<mapsto> PyNum 7]"

text \<open>The metric set the publisher derives from the sample frame.\<close>

definition sample_new_data :: "(string \<times> int pyval) list" where
  "sample_new_data =
     [(''production_l1'', PyNum 0), (''voltage_l1'', PyNum 230), (''ampere_l1'', PyNum 2),
      (''apparent_power_l1'', PyNum 460), (''power_factorl1'', PyNum 1),
      (''reactive_power_l1'', PyNum 0), (''frequency_l1'', PyNum 50), (''consumption_l1'', PyNum 10),
      (''production_l2'', PyNum 200), (''voltage_l2'', PyNum 230), (''ampere_l2'', PyNum 2),
      (''apparent_power_l2'', PyNum 460), (''power_factorl2'', PyNum 1),
      (''reactive_power_l2'', PyNum 0), (''frequency_l2'', PyNum 50), (''consumption_l2'', PyNum 20),
      (''production_l3'', PyNum 300), (''voltage_l3'', PyNum 230), (''ampere_l3'', PyNum 2),
      (''apparent_power_l3'', PyNum 460), (''power_factorl3'', PyNum 1),
      (''reactive_power_l3'', PyNum 0), (''frequency_l3'', PyNum 50), (''consumption_l3'', PyNum 30)]"





section \<open>Properties of the poll coordinator\<close>

lemma async_update_data_cases:
  "async_update_data env s =
     (case env (getData_calls s) (get_inverters s) of
        TimedOut \<Rightarrow> (Inl AsyncTimeoutError, s\<lparr>getData_calls := Suc (getData_calls s)\<rparr>)
      | Raised err \<Rightarrow>
          (Inl (if err = HTTPStatusError then ConfigEntryAuthFailed
                else if err = HTTPRequestError then UpdateFailed else err),
           s\<lparr>getData_calls := Suc (getData_calls s)\<rparr>)
      | Returned v \<Rightarrow>
          (Inr v, s\<lparr>getData_calls := Suc (getData_calls s),
                    sync_store_calls := Suc (sync_store_calls s)\<rparr>))"
  by (simp add: async_update_data_def isinstance_HTTPStatusError_def isinstance_HTTPError_def
      split: getData_outcome.splits)

lemma first_refresh_cases:
  "async_config_entry_first_refresh env s =
     (case env (getData_calls s) (get_inverters s) of
        TimedOut \<Rightarrow> (Inl ConfigEntryNotReady, s\<lparr>getData_calls := Suc (getData_calls s)\<rparr>)
      | Raised err \<Rightarrow>
          (Inl (if err = HTTPStatusError \<or> err = ConfigEntryAuthFailed then ConfigEntryAuthFailed
                else ConfigEntryNotReady),
           s\<lparr>getData_calls := Suc (getData_calls s)\<rparr>)
      | Returned v \<Rightarrow>
          (Inr (), s\<lparr>getData_calls := Suc (getData_calls s),
                    sync_store_calls := Suc (sync_store_calls s),
                    coordinator_data := Some v\<rparr>))"
  by (simp add: async_config_entry_first_refresh_def coordinator_refresh_def
      async_update_data_cases split: getData_outcome.splits)

text \<open>
  Claim C1, as stated: every poll attempt, failed or not, performs the token store sync.
  It fails on the code: a reader that answers with an HTTP status error makes the update method
  raise \<^verbatim>\<open>ConfigEntryAuthFailed\<close> with no call of \<^verbatim>\<open>_sync_store\<close>.
\<close>

theorem sync_store_skipped_on_failure:
  "fst (async_update_data reader_auth_fails poll_start) = Inl ConfigEntryAuthFailed \<and>
   sync_store_calls (snd (async_update_data reader_auth_fails poll_start)) =
     sync_store_calls poll_start"
  by (simp add: async_update_data_cases reader_auth_fails_def poll_start_def)

text \<open>
  Claim C1, amended: a poll attempt calls \<^verbatim>\<open>_sync_store\<close> once, before it returns the data,
  exactly when the reader call succeeds; when the reader raises or the timeout expires the
  attempt ends without the call.
\<close>

theorem sync_store_only_after_success:
  "sync_store_calls (snd (async_update_data env s)) =
     (case env (getData_calls s) (get_inverters s) of
        Returned v \<Rightarrow> Suc (sync_store_calls s)
      | Raised err \<Rightarrow> sync_store_calls s
      | TimedOut \<Rightarrow> sync_store_calls s)"
  by (simp add: async_update_data_cases split: getData_outcome.splits)

text \<open>
  Claim C2: when the first refresh of the setup ends with an authentication failure, the
  reader's \<^verbatim>\<open>get_inverters\<close> is switched off and the refresh is run once more, so the reader
  has been invoked exactly twice; if the second run succeeds its snapshot becomes visible, and
  if it fails with an authentication failure again, that failure leaves the setup with no
  third invocation.
\<close>

theorem initial_refresh_retries_once:
  assumes "env (getData_calls s) (get_inverters s) = Raised HTTPStatusError"
  shows "getData_calls (snd (initial_refresh env s)) = getData_calls s + 2 \<and>
         \<not> get_inverters (snd (initial_refresh env s)) \<and>
         (\<forall>v. env (Suc (getData_calls s)) False = Returned v \<longrightarrow>
            fst (initial_refresh env s) = Inr () \<and>
            coordinator_data (snd (initial_refresh env s)) = Some v) \<and>
         (env (Suc (getData_calls s)) False = Raised HTTPStatusError \<longrightarrow>
            fst (initial_refresh env s) = Inl ConfigEntryAuthFailed \<and>
            coordinator_data (snd (initial_refresh env s)) = coordinator_data s)"
  using assms
  by (simp add: initial_refresh_def first_refresh_cases split: getData_outcome.splits)

theorem initial_refresh_retries_once_witness:
  "reader_auth_fails_with_inverters (getData_calls poll_start) (get_inverters poll_start)
     = Raised HTTPStatusError \<and>
   fst (initial_refresh reader_auth_fails_with_inverters poll_start) = Inr () \<and>
   getData_calls (snd (initial_refresh reader_auth_fails_with_inverters poll_start)) = 2 \<and>
   coordinator_data (snd (initial_refresh reader_auth_fails_with_inverters poll_start))
     = Some [''production'' \<mapsto> PyNum 5] \<and>
   reader_auth_fails (getData_calls poll_start) (get_inverters poll_start)
     = Raised HTTPStatusError \<and>
   fst (initial_refresh reader_auth_fails poll_start) = Inl ConfigEntryAuthFailed \<and>
   getData_calls (snd (initial_refresh reader_auth_fails poll_start)) = 2"
  using initial_refresh_retries_once [of reader_auth_fails_with_inverters poll_start]
        initial_refresh_retries_once [of reader_auth_fails poll_start]
  by (simp add: reader_auth_fails_with_inverters_def reader_auth_fails_def poll_start_def)

text \<open>
  Claim C3: a failing update method (the reader raises, or the timeout expires) ends with an
  exception and returns no data, the update method never writes \<^verbatim>\<open>coordinator.data\<close>
  itself, and along any sequence of polls the visible snapshot after a poll is the returned data
  when the poll succeeded and the previous snapshot, untouched, when it failed.
\<close>

theorem snapshot_replaced_only_on_success:
  "(case env (getData_calls s) (get_inverters s) of
      Returned v \<Rightarrow> fst (async_update_data env s) = Inr v
    | Raised err \<Rightarrow> (\<exists>e. fst (async_update_data env s) = Inl e)
    | TimedOut \<Rightarrow> fst (async_update_data env s) = Inl AsyncTimeoutError) \<and>
   coordinator_data (snd (async_update_data env s)) = coordinator_data s \<and>
   coordinator_data (poll_cycles env (Suc n) s) =
     (case fst (async_update_data env (poll_cycles env n s)) of
        Inl e \<Rightarrow> coordinator_data (poll_cycles env n s)
      | Inr d \<Rightarrow> Some d)"
  by (simp add: coordinator_refresh_def async_update_data_cases split: getData_outcome.splits)

text \<open>
  Claim C4: provided the reader does not itself raise one of the host's two signals, the update
  method ends with \<^verbatim>\<open>ConfigEntryAuthFailed\<close> exactly when \<^verbatim>\<open>getData\<close> raised an HTTP
  status error, and with \<^verbatim>\<open>UpdateFailed\<close> exactly when it raised any other HTTP error.
\<close>

theorem update_failure_classification:
  assumes "env (getData_calls s) (get_inverters s) \<noteq> Raised ConfigEntryAuthFailed"
      and "env (getData_calls s) (get_inverters s) \<noteq> Raised UpdateFailed"
  shows "(fst (async_update_data env s) = Inl ConfigEntryAuthFailed \<longleftrightarrow>
            env (getData_calls s) (get_inverters s) = Raised HTTPStatusError) \<and>
         (fst (async_update_data env s) = Inl UpdateFailed \<longleftrightarrow>
            env (getData_calls s) (get_inverters s) = Raised HTTPRequestError)"
  using assms by (auto simp add: async_update_data_cases split: getData_outcome.splits if_splits)

theorem update_failure_classification_witness:
  "reader_auth_fails (getData_calls poll_start) (get_inverters poll_start)
     \<noteq> Raised ConfigEntryAuthFailed \<and>
   reader_auth_fails (getData_calls poll_start) (get_inverters poll_start) \<noteq> Raised UpdateFailed \<and>
   fst (async_update_data reader_auth_fails poll_start) = Inl ConfigEntryAuthFailed \<and>
   fst (async_update_data reader_auth_fails poll_start) \<noteq> Inl UpdateFailed"
  using update_failure_classification [of reader_auth_fails poll_start]
  by (simp add: reader_auth_fails_def)

section \<open>Properties of the throttled metric publisher\<close>

subsection \<open>The derived metric set\<close>

lemma dict_set_keys:
  "map fst (dict_set d k v) = (if k \<in> fst ` set d then map fst d else map fst d @ [k])"
  by (induction d) force+

lemma dict_set_distinct: "distinct (map fst d) \<Longrightarrow> distinct (map fst (dict_set d k v))"
  by (simp add: dict_set_keys)

lemma dict_update_distinct: "distinct (map fst d) \<Longrightarrow> distinct (map fst (dict_update d items))"
  by (induction d items rule: dict_update.induct) (simp_all add: dict_set_distinct)

lemma collect_new_data_distinct:
  "collect_new_data ppv sd phases nd0 = Inr nd \<Longrightarrow> distinct (map fst nd0) \<Longrightarrow> distinct (map fst nd)"
  by (induction ppv sd phases nd0 rule: collect_new_data.induct)
     (auto simp: dict_update_distinct split: option.splits)

lemma new_data_of_distinct: "new_data_of ppv sd = Inr nd \<Longrightarrow> distinct (map fst nd)"
  unfolding new_data_of_def by (erule collect_new_data_distinct) simp


lemma new_data_of_explicit:
  assumes "production sd ''l1'' = Some p1" and "production sd ''l2'' = Some p2"
      and "production sd ''l3'' = Some p3" and "consumption sd ''l1'' = Some c1"
      and "consumption sd ''l2'' = Some c2" and "consumption sd ''l3'' = Some c3"
  shows "new_data_of ppv sd = Inr
     [(''production_l1'', ppv (watts p1)), (''voltage_l1'', volt p1), (''ampere_l1'', amps p1),
      (''apparent_power_l1'', volt_ampere p1), (''power_factorl1'', pf p1),
      (''reactive_power_l1'', var p1), (''frequency_l1'', hz p1), (''consumption_l1'', watts c1),
      (''production_l2'', ppv (watts p2)), (''voltage_l2'', volt p2), (''ampere_l2'', amps p2),
      (''apparent_power_l2'', volt_ampere p2), (''power_factorl2'', pf p2),
      (''reactive_power_l2'', var p2), (''frequency_l2'', hz p2), (''consumption_l2'', watts c2),
      (''production_l3'', ppv (watts p3)), (''voltage_l3'', volt p3), (''ampere_l3'', amps p3),
      (''apparent_power_l3'', volt_ampere p3), (''power_factorl3'', pf p3),
      (''reactive_power_l3'', var p3), (''frequency_l3'', hz p3), (''consumption_l3'', watts c3)]"
  using assms by (simp add: new_data_of_def phase_entries_def)

lemma new_data_of_Inr_lookups:
  assumes "new_data_of ppv sd = Inr nd"
  obtains p1 p2 p3 c1 c2 c3 where
    "production sd ''l1'' = Some p1" "production sd ''l2'' = Some p2"
    "production sd ''l3'' = Some p3" "consumption sd ''l1'' = Some c1"
    "consumption sd ''l2'' = Some c2" "consumption sd ''l3'' = Some c3"
  using assms unfolding new_data_of_def
  by (auto split: option.splits)

lemma sample_frame_new_data: "new_data_of clamp_negative sample_frame = Inr sample_new_data"
  by (simp add: new_data_of_def phase_entries_def sample_frame_def sample_phase_def
      clamp_negative_def sample_new_data_def)

subsection \<open>The publishing loop\<close>

lemma publish_items_Cons_snd:
  "snd (publish_items live ((key, val) # items) d) =
     (case live key of
        None \<Rightarrow> snd (publish_items live items d)
      | Some ent \<Rightarrow>
          if dict_get d key \<noteq> val
          then Write key val # Notify key ent # snd (publish_items live items (d(key \<mapsto> val)))
          else snd (publish_items live items d))"
  by (simp split: option.splits prod.splits)

lemma publish_items_Cons_fst:
  "fst (publish_items live ((key, val) # items) d) =
     (case live key of
        None \<Rightarrow> fst (publish_items live items d)
      | Some ent \<Rightarrow>
          if dict_get d key \<noteq> val
          then fst (publish_items live items (d(key \<mapsto> val)))
          else fst (publish_items live items d))"
  by (simp split: option.splits prod.splits)

lemma publish_items_Write:
  "Write k v \<in> set (snd (publish_items live items d)) \<Longrightarrow> (k, v) \<in> set items \<and> live k \<noteq> None"
proof (induction items arbitrary: d)
  case Nil
  then show ?case by simp
next
  case (Cons item items)
  obtain key val where item: "item = (key, val)" by (cases item)
  show ?case
  proof (cases "live key")
    case None
    with Cons.prems have "Write k v \<in> set (snd (publish_items live items d))"
      unfolding item publish_items_Cons_snd by simp
    from Cons.IH [OF this] show ?thesis by simp
  next
    case (Some ent)
    show ?thesis
    proof (cases "dict_get d key \<noteq> val")
      case True
      with Cons.prems Some
      have "(k = key \<and> v = val) \<or> Write k v \<in> set (snd (publish_items live items (d(key \<mapsto> val))))"
        unfolding item publish_items_Cons_snd by (simp del: fun_upd_apply)
      then show ?thesis
      proof
        assume "k = key \<and> v = val"
        then show ?thesis using Some item by simp
      next
        assume "Write k v \<in> set (snd (publish_items live items (d(key \<mapsto> val))))"
        from Cons.IH [OF this] show ?thesis by simp
      qed
    next
      case False
      with Cons.prems Some have "Write k v \<in> set (snd (publish_items live items d))"
        unfolding item publish_items_Cons_snd by simp
      from Cons.IH [OF this] show ?thesis by simp
    qed
  qed
qed

lemma publish_items_Notify:
  "Notify k e \<in> set (snd (publish_items live items d)) \<Longrightarrow> k \<in> fst ` set items \<and> live k = Some e"
proof (induction items arbitrary: d)
  case Nil
  then show ?case by simp
next
  case (Cons item items)
  obtain key val where item: "item = (key, val)" by (cases item)
  show ?case
  proof (cases "live key")
    case None
    with Cons.prems have "Notify k e \<in> set (snd (publish_items live items d))"
      unfolding item publish_items_Cons_snd by simp
    from Cons.IH [OF this] show ?thesis by simp
  next
    case (Some ent)
    show ?thesis
    proof (cases "dict_get d key \<noteq> val")
      case True
      with Cons.prems Some
      have "(k = key \<and> e = ent) \<or> Notify k e \<in> set (snd (publish_items live items (d(key \<mapsto> val))))"
        unfolding item publish_items_Cons_snd by (simp del: fun_upd_apply)
      then show ?thesis
      proof
        assume "k = key \<and> e = ent"
        then show ?thesis using Some item by simp
      next
        assume "Notify k e \<in> set (snd (publish_items live items (d(key \<mapsto> val))))"
        from Cons.IH [OF this] show ?thesis by simp
      qed
    next
      case False
      with Cons.prems Some have "Notify k e \<in> set (snd (publish_items live items d))"
        unfolding item publish_items_Cons_snd by simp
      from Cons.IH [OF this] show ?thesis by simp
    qed
  qed
qed

lemma dict_get_upd_other: "k \<noteq> k' \<Longrightarrow> dict_get (d(k' \<mapsto> v')) k = dict_get d k"
  by (simp add: dict_get_def)

lemma publish_items_Write_iff:
  "distinct (map fst items) \<Longrightarrow> (k, v) \<in> set items \<Longrightarrow>
   Write k v \<in> set (snd (publish_items live items d)) \<longleftrightarrow> live k \<noteq> None \<and> dict_get d k \<noteq> v"
proof (induction items arbitrary: d)
  case Nil
  then show ?case by simp
next
  case (Cons item items)
  obtain key val where item: "item = (key, val)" by (cases item)
  from Cons.prems item have dist: "distinct (map fst items)" and fresh: "key \<notin> fst ` set items"
    by auto
  show ?case
  proof (cases "k = key")
    case True
    with Cons.prems item fresh have v: "v = val"
      by (auto simp: rev_image_eqI)
    have "(key, val) \<notin> set items"
      using fresh by (auto simp: rev_image_eqI)
    then have tail: "Write key val \<notin> set (snd (publish_items live items d'))" for d'
      using publish_items_Write by blast
    show ?thesis
    proof (cases "live key")
      case None
      then show ?thesis
        unfolding item publish_items_Cons_snd True v by (simp add: tail)
    next
      case (Some ent)
      then show ?thesis
        unfolding item publish_items_Cons_snd True v by (simp add: tail)
    qed
  next
    case False
    with Cons.prems item have mem: "(k, v) \<in> set items" by auto
    have ih: "Write k v \<in> set (snd (publish_items live items d')) \<longleftrightarrow>
                live k \<noteq> None \<and> dict_get d' k \<noteq> v" for d'
      using Cons.IH [OF dist mem] .
    have g: "dict_get (d(key \<mapsto> val)) k = dict_get d k"
      using False by (simp add: dict_get_def)
    show ?thesis
    proof (cases "live key")
      case None
      then show ?thesis
        unfolding item publish_items_Cons_snd by (simp add: ih)
    next
      case (Some ent)
      show ?thesis
      proof (cases "dict_get d key \<noteq> val")
        case True
        have "Write k v \<in> set (snd (publish_items live (item # items) d)) \<longleftrightarrow>
              Write k v \<in> set (snd (publish_items live items (d(key \<mapsto> val))))"
          unfolding item publish_items_Cons_snd using Some True False
          by (simp del: fun_upd_apply)
        then show ?thesis by (simp only: ih g)
      next
        case F: False
        then show ?thesis
          unfolding item publish_items_Cons_snd using Some by (simp add: ih)
      qed
    qed
  qed
qed

lemma publish_items_Notify_iff:
  "distinct (map fst items) \<Longrightarrow> (k, v) \<in> set items \<Longrightarrow>
   Notify k e \<in> set (snd (publish_items live items d)) \<longleftrightarrow>
     live k = Some e \<and> dict_get d k \<noteq> v"
proof (induction items arbitrary: d)
  case Nil
  then show ?case by simp
next
  case (Cons item items)
  obtain key val where item: "item = (key, val)" by (cases item)
  from Cons.prems item have dist: "distinct (map fst items)" and fresh: "key \<notin> fst ` set items"
    by auto
  show ?case
  proof (cases "k = key")
    case True
    with Cons.prems item fresh have v: "v = val"
      by (auto simp: rev_image_eqI)
    have tail: "Notify key e \<notin> set (snd (publish_items live items d'))" for d'
    proof
      assume "Notify key e \<in> set (snd (publish_items live items d'))"
      from publish_items_Notify [OF this] fresh show False by simp
    qed
    show ?thesis
    proof (cases "live key")
      case None
      then show ?thesis
        unfolding item publish_items_Cons_snd True v by (simp add: tail)
    next
      case (Some ent)
      then show ?thesis
        unfolding item publish_items_Cons_snd True v by (auto simp add: tail)
    qed
  next
    case False
    with Cons.prems item have mem: "(k, v) \<in> set items" by auto
    have ih: "Notify k e \<in> set (snd (publish_items live items d')) \<longleftrightarrow>
                live k = Some e \<and> dict_get d' k \<noteq> v" for d'
      using Cons.IH [OF dist mem] .
    have g: "dict_get (d(key \<mapsto> val)) k = dict_get d k"
      using False by (simp add: dict_get_def)
    show ?thesis
    proof (cases "live key")
      case None
      then show ?thesis
        unfolding item publish_items_Cons_snd by (simp add: ih)
    next
      case (Some ent)
      show ?thesis
      proof (cases "dict_get d key \<noteq> val")
        case True
        have "Notify k e \<in> set (snd (publish_items live (item # items) d)) \<longleftrightarrow>
              Notify k e \<in> set (snd (publish_items live items (d(key \<mapsto> val))))"
          unfolding item publish_items_Cons_snd using Some True False
          by (simp del: fun_upd_apply)
        then show ?thesis by (simp only: ih g)
      next
        case F: False
        then show ?thesis
          unfolding item publish_items_Cons_snd using Some by (simp add: ih)
      qed
    qed
  qed
qed

lemma publish_items_data_other:
  "k \<notin> fst ` set items \<Longrightarrow> fst (publish_items live items d) k = d k"
proof (induction items arbitrary: d)
  case Nil
  then show ?case by simp
next
  case (Cons item items)
  obtain key val where item: "item = (key, val)" by (cases item)
  from Cons.prems item have "k \<noteq> key" "k \<notin> fst ` set items" by auto
  then show ?case
    unfolding item publish_items_Cons_fst
    by (simp add: Cons.IH split: option.splits)
qed

lemma publish_items_data:
  "distinct (map fst items) \<Longrightarrow> (k, v) \<in> set items \<Longrightarrow>
   fst (publish_items live items d) k =
     (if live k \<noteq> None \<and> dict_get d k \<noteq> v then Some v else d k)"
proof (induction items arbitrary: d)
  case Nil
  then show ?case by simp
next
  case (Cons item items)
  obtain key val where item: "item = (key, val)" by (cases item)
  from Cons.prems item have dist: "distinct (map fst items)" and fresh: "key \<notin> fst ` set items"
    by auto
  show ?case
  proof (cases "k = key")
    case True
    with Cons.prems item fresh have v: "v = val"
      by (auto simp: rev_image_eqI)
    have other: "fst (publish_items live items d') key = d' key" for d'
      using fresh by (rule publish_items_data_other)
    show ?thesis
    proof (cases "live key")
      case None
      then show ?thesis
        unfolding item publish_items_Cons_fst True v by (simp add: other)
    next
      case (Some ent)
      then show ?thesis
        unfolding item publish_items_Cons_fst True v by (simp add: other dict_get_def)
    qed
  next
    case False
    with Cons.prems item have mem: "(k, v) \<in> set items" by auto
    have ih: "fst (publish_items live items d') k =
                (if live k \<noteq> None \<and> dict_get d' k \<noteq> v then Some v else d' k)" for d'
      using Cons.IH [OF dist mem] .
    have g: "dict_get (d(key \<mapsto> val)) k = dict_get d k"
      using False by (simp add: dict_get_def)
    have h: "(d(key \<mapsto> val)) k = d k"
      using False by simp
    show ?thesis
    proof (cases "live key")
      case None
      then show ?thesis
        unfolding item publish_items_Cons_fst by (simp add: ih)
    next
      case (Some ent)
      show ?thesis
      proof (cases "dict_get d key \<noteq> val")
        case True
        have "fst (publish_items live (item # items) d) k =
              fst (publish_items live items (d(key \<mapsto> val))) k"
          unfolding item publish_items_Cons_fst using Some True
          by (simp del: fun_upd_apply)
        then show ?thesis by (simp only: ih g h)
      next
        case F: False
        then show ?thesis
          unfolding item publish_items_Cons_fst using Some by (simp add: ih)
      qed
    qed
  qed
qed

text \<open>
  Claim C5: for an admitted frame and every derived pair of key and value, the publisher
  assigns the value to \<^verbatim>\<open>coordinator.data[key]\<close> and notifies the key's entity if and only
  if an entity is registered for the key and the value differs from what
  \<^verbatim>\<open>coordinator.data.get(key)\<close> read before the call; whatever it notifies is registered, and
  whatever it writes is a derived value that differed.
\<close>

theorem publisher_writes_and_notifies_iff:
  assumes "new_data_of ppv sd = Inr nd" and "(key, value) \<in> set nd"
      and "update_production_meters True ppv live sd data = Inr (data', evs)"
  shows "(Write key value \<in> set evs \<longleftrightarrow> live key \<noteq> None \<and> dict_get data key \<noteq> value) \<and>
         ((\<exists>ent. Notify key ent \<in> set evs) \<longleftrightarrow> live key \<noteq> None \<and> dict_get data key \<noteq> value) \<and>
         data' key = (if live key \<noteq> None \<and> dict_get data key \<noteq> value then Some value else data key) \<and>
         (\<forall>k ent. Notify k ent \<in> set evs \<longrightarrow> live k = Some ent) \<and>
         (\<forall>k v. Write k v \<in> set evs \<longrightarrow> (k, v) \<in> set nd \<and> dict_get data k \<noteq> v)"
proof -
  from assms(1,3) have pub: "publish_items live nd data = (data', evs)"
    by (simp add: update_production_meters_def)
  have dist: "distinct (map fst nd)"
    using assms(1) by (rule new_data_of_distinct)
  from pub have evs: "snd (publish_items live nd data) = evs"
    by simp
  from pub have data': "fst (publish_items live nd data) = data'"
    by simp
  have w: "Write key value \<in> set evs \<longleftrightarrow> live key \<noteq> None \<and> dict_get data key \<noteq> value"
    using publish_items_Write_iff [OF dist assms(2), of live data] unfolding evs .
  have ni: "Notify key e \<in> set evs \<longleftrightarrow> live key = Some e \<and> dict_get data key \<noteq> value" for e
    using publish_items_Notify_iff [OF dist assms(2), of e live data] unfolding evs .
  have n: "(\<exists>ent. Notify key ent \<in> set evs) \<longleftrightarrow> live key \<noteq> None \<and> dict_get data key \<noteq> value"
  proof
    assume "\<exists>ent. Notify key ent \<in> set evs"
    then obtain ent where "Notify key ent \<in> set evs" ..
    with ni show "live key \<noteq> None \<and> dict_get data key \<noteq> value" by simp
  next
    assume a: "live key \<noteq> None \<and> dict_get data key \<noteq> value"
    then obtain ent where "live key = Some ent" by (cases "live key") simp_all
    with a ni have "Notify key ent \<in> set evs" by simp
    then show "\<exists>ent. Notify key ent \<in> set evs" ..
  qed
  have d: "data' key = (if live key \<noteq> None \<and> dict_get data key \<noteq> value then Some value else data key)"
    using publish_items_data [OF dist assms(2), of live data] unfolding data' .
  have nk: "\<forall>k ent. Notify k ent \<in> set evs \<longrightarrow> live k = Some ent"
  proof (intro allI impI)
    fix k ent
    assume "Notify k ent \<in> set evs"
    then have "Notify k ent \<in> set (snd (publish_items live nd data))"
      by (simp only: evs)
    from publish_items_Notify [OF this] show "live k = Some ent" by (rule conjunct2)
  qed
  have wk: "\<forall>k v. Write k v \<in> set evs \<longrightarrow> (k, v) \<in> set nd \<and> dict_get data k \<noteq> v"
  proof (intro allI impI)
    fix k v
    assume a: "Write k v \<in> set evs"
    then have "Write k v \<in> set (snd (publish_items live nd data))"
      by (simp only: evs)
    from publish_items_Write [OF this] have mem: "(k, v) \<in> set nd" by (rule conjunct1)
    from publish_items_Write_iff [OF dist mem, of live data] a
    have "dict_get data k \<noteq> v" unfolding evs by simp
    with mem show "(k, v) \<in> set nd \<and> dict_get data k \<noteq> v" by (rule conjI)
  qed
  from w n d nk wk show ?thesis by (intro conjI)
qed

theorem publisher_writes_and_notifies_iff_witness:
  "new_data_of clamp_negative sample_frame = Inr sample_new_data \<and>
   (''production_l1'', PyNum 0) \<in> set sample_new_data \<and>
   update_production_meters True clamp_negative sample_live sample_frame sample_data =
     Inr (publish_items sample_live sample_new_data sample_data) \<and>
   Write ''production_l1'' (PyNum 0) \<in> set (snd (publish_items sample_live sample_new_data sample_data)) \<and>
   fst (publish_items sample_live sample_new_data sample_data) ''production_l1'' = Some (PyNum 0)"
proof -
  have h1: "new_data_of clamp_negative sample_frame = Inr sample_new_data"
    by (rule sample_frame_new_data)
  have h2: "(''production_l1'', PyNum 0) \<in> set sample_new_data"
    by (simp add: sample_new_data_def)
  have h3: "update_production_meters True clamp_negative sample_live sample_frame sample_data =
     Inr (fst (publish_items sample_live sample_new_data sample_data),
          snd (publish_items sample_live sample_new_data sample_data))"
    by (simp add: update_production_meters_def h1)
  have live: "sample_live ''production_l1'' \<noteq> None"
    by (simp add: sample_live_def)
  have differs: "dict_get sample_data ''production_l1'' \<noteq> PyNum 0"
    by (simp add: sample_data_def dict_get_def)
  from publisher_writes_and_notifies_iff [OF h1 h2 h3] live differs
  have "Write ''production_l1'' (PyNum 0)
          \<in> set (snd (publish_items sample_live sample_new_data sample_data)) \<and>
        fst (publish_items sample_live sample_new_data sample_data) ''production_l1''
          = Some (PyNum 0)"
    by (simp del: publish_items.simps)
  moreover have "update_production_meters True clamp_negative sample_live sample_frame sample_data =
     Inr (publish_items sample_live sample_new_data sample_data)"
    using h3 by (simp del: publish_items.simps)
  ultimately show ?thesis using h1 h2 by (simp del: publish_items.simps)
qed

text \<open>
  Claim C9: for an admitted frame that carries the three phases, the publisher derives eight
  metrics for each of \<^verbatim>\<open>l1\<close>, \<^verbatim>\<open>l2\<close>, \<^verbatim>\<open>l3\<close>, in this order: production watts,
  volts, amps, apparent power, power factor, reactive power, frequency and consumption watts.
  Only the production watts go through \<^verbatim>\<open>process_production_value\<close>; every other value,
  the consumption watts included, is the frame's own, and this list is what is compared and
  stored.
\<close>

theorem new_data_eight_metrics_per_phase:
  assumes "production sd ''l1'' = Some p1" and "production sd ''l2'' = Some p2"
      and "production sd ''l3'' = Some p3" and "consumption sd ''l1'' = Some c1"
      and "consumption sd ''l2'' = Some c2" and "consumption sd ''l3'' = Some c3"
  shows "let new_data =
     [(''production_l1'', ppv (watts p1)), (''voltage_l1'', volt p1), (''ampere_l1'', amps p1),
      (''apparent_power_l1'', volt_ampere p1), (''power_factorl1'', pf p1),
      (''reactive_power_l1'', var p1), (''frequency_l1'', hz p1), (''consumption_l1'', watts c1),
      (''production_l2'', ppv (watts p2)), (''voltage_l2'', volt p2), (''ampere_l2'', amps p2),
      (''apparent_power_l2'', volt_ampere p2), (''power_factorl2'', pf p2),
      (''reactive_power_l2'', var p2), (''frequency_l2'', hz p2), (''consumption_l2'', watts c2),
      (''production_l3'', ppv (watts p3)), (''voltage_l3'', volt p3), (''ampere_l3'', amps p3),
      (''apparent_power_l3'', volt_ampere p3), (''power_factorl3'', pf p3),
      (''reactive_power_l3'', var p3), (''frequency_l3'', hz p3), (''consumption_l3'', watts c3)]
    in new_data_of ppv sd = Inr new_data \<and> length new_data = 3 * 8 \<and>
       update_production_meters True ppv live sd data = Inr (publish_items live new_data data)"
  using new_data_of_explicit [OF assms, of ppv]
  by (simp add: update_production_meters_def Let_def del: publish_items.simps)

theorem new_data_eight_metrics_per_phase_witness:
  "production sample_frame ''l1'' = Some (sample_phase (- 5)) \<and>
   production sample_frame ''l2'' = Some (sample_phase 200) \<and>
   production sample_frame ''l3'' = Some (sample_phase 300) \<and>
   consumption sample_frame ''l1'' = Some (sample_phase 10) \<and>
   consumption sample_frame ''l2'' = Some (sample_phase 20) \<and>
   consumption sample_frame ''l3'' = Some (sample_phase 30) \<and>
   new_data_of clamp_negative sample_frame = Inr sample_new_data \<and>
   update_production_meters True clamp_negative sample_live sample_frame sample_data =
     Inr (publish_items sample_live sample_new_data sample_data)"
proof -
  have l: "production sample_frame ''l1'' = Some (sample_phase (- 5))"
    "production sample_frame ''l2'' = Some (sample_phase 200)"
    "production sample_frame ''l3'' = Some (sample_phase 300)"
    "consumption sample_frame ''l1'' = Some (sample_phase 10)"
    "consumption sample_frame ''l2'' = Some (sample_phase 20)"
    "consumption sample_frame ''l3'' = Some (sample_phase 30)"
    by (simp_all add: sample_frame_def)
  from new_data_eight_metrics_per_phase
    [OF l, of clamp_negative sample_live sample_data]
  have "new_data_of clamp_negative sample_frame = Inr sample_new_data \<and>
        update_production_meters True clamp_negative sample_live sample_frame sample_data =
          Inr (publish_items sample_live sample_new_data sample_data)"
    by (simp add: Let_def sample_phase_def clamp_negative_def sample_new_data_def
        del: publish_items.simps)
  with l show ?thesis by simp
qed

text \<open>
  Claim C10: for each phase the power factor is stored under \<^verbatim>\<open>"power_factor"\<close> followed
  directly by the phase name; the key with an underscore before the phase is not derived,
  while each of the other seven quantities is stored under its name, an underscore and the
  phase name, and not under the name without the underscore.
\<close>

theorem power_factor_key_has_no_underscore:
  assumes "new_data_of ppv sd = Inr nd" and "phase \<in> set [''l1'', ''l2'', ''l3'']"
  shows "map_of nd (''power_factor'' @ phase) = map_option pf (production sd phase) \<and>
         ''power_factor_'' @ phase \<notin> fst ` set nd \<and>
         (\<forall>q \<in> set [''production'', ''voltage'', ''ampere'', ''apparent_power'',
                      ''reactive_power'', ''frequency'', ''consumption''].
            q @ ''_'' @ phase \<in> fst ` set nd \<and> q @ phase \<notin> fst ` set nd)"
proof -
  from assms(1) obtain p1 p2 p3 c1 c2 c3 where
    l: "production sd ''l1'' = Some p1" "production sd ''l2'' = Some p2"
       "production sd ''l3'' = Some p3" "consumption sd ''l1'' = Some c1"
       "consumption sd ''l2'' = Some c2" "consumption sd ''l3'' = Some c3"
    by (rule new_data_of_Inr_lookups)
  from new_data_of_explicit [OF l, of ppv] assms(1)
  have nd: "nd =
     [(''production_l1'', ppv (watts p1)), (''voltage_l1'', volt p1), (''ampere_l1'', amps p1),
      (''apparent_power_l1'', volt_ampere p1), (''power_factorl1'', pf p1),
      (''reactive_power_l1'', var p1), (''frequency_l1'', hz p1), (''consumption_l1'', watts c1),
      (''production_l2'', ppv (watts p2)), (''voltage_l2'', volt p2), (''ampere_l2'', amps p2),
      (''apparent_power_l2'', volt_ampere p2), (''power_factorl2'', pf p2),
      (''reactive_power_l2'', var p2), (''frequency_l2'', hz p2), (''consumption_l2'', watts c2),
      (''production_l3'', ppv (watts p3)), (''voltage_l3'', volt p3), (''ampere_l3'', amps p3),
      (''apparent_power_l3'', volt_ampere p3), (''power_factorl3'', pf p3),
      (''reactive_power_l3'', var p3), (''frequency_l3'', hz p3), (''consumption_l3'', watts c3)]"
    by simp
  from assms(2) consider "phase = ''l1''" | "phase = ''l2''" | "phase = ''l3''" by auto
  then show ?thesis
  proof cases
    case 1
    then show ?thesis unfolding nd by (simp add: l)
  next
    case 2
    then show ?thesis unfolding nd by (simp add: l)
  next
    case 3
    then show ?thesis unfolding nd by (simp add: l)
  qed
qed

theorem power_factor_key_has_no_underscore_witness:
  "new_data_of clamp_negative sample_frame = Inr sample_new_data \<and>
   ''l1'' \<in> set [''l1'', ''l2'', ''l3''] \<and>
   map_of sample_new_data ''power_factorl1'' = Some (PyNum 1) \<and>
   ''power_factor_l1'' \<notin> fst ` set sample_new_data \<and>
   ''voltage_l1'' \<in> fst ` set sample_new_data"
proof -
  have h1: "new_data_of clamp_negative sample_frame = Inr sample_new_data"
    by (rule sample_frame_new_data)
  have h2: "''l1'' \<in> set [''l1'', ''l2'', ''l3'']"
    by simp
  have pf1: "map_option pf (production sample_frame ''l1'') = Some (PyNum 1)"
    by (simp add: sample_frame_def sample_phase_def)
  note inst = power_factor_key_has_no_underscore [OF h1 h2, unfolded pf1]
  from inst have a: "map_of sample_new_data (''power_factor'' @ ''l1'') = Some (PyNum 1)"
    by (rule conjunct1)
  from inst have b: "''power_factor_'' @ ''l1'' \<notin> fst ` set sample_new_data"
    by (elim conjE)
  from inst have "\<forall>q \<in> set [''production'', ''voltage'', ''ampere'', ''apparent_power'',
                      ''reactive_power'', ''frequency'', ''consumption''].
            q @ ''_'' @ ''l1'' \<in> fst ` set sample_new_data \<and>
            q @ ''l1'' \<notin> fst ` set sample_new_data"
    by (elim conjE)
  then have "''voltage'' @ ''_'' @ ''l1'' \<in> fst ` set sample_new_data"
    by simp
  then have c: "''voltage_l1'' \<in> fst ` set sample_new_data"
    by simp
  from a have a': "map_of sample_new_data ''power_factorl1'' = Some (PyNum 1)"
    by simp
  from b have b': "''power_factor_l1'' \<notin> fst ` set sample_new_data"
    by simp
  from h1 h2 a' b' c show ?thesis by (intro conjI)
qed

section \<open>Properties of the realtime stream supervisor\<close>







section \<open>Properties of the stop and unload handlers\<close>

text \<open>
  Claim C7, evaluated on a running stream task: the stop handler requests the cancellation and
  goes on without awaiting the task, which is left with the request pending; the unload handler
  cancels, awaits and leaves the task cancelled.
\<close>

theorem stop_handler_does_not_await:
  "async_stop (setup_realtime True) =
     Inr \<lparr>task = Some CancelRequested, realtime_loop = Some SlotFalse,
          cancel_calls = 1, awaited = 0, entry_loaded = True\<rparr> \<and>
   async_unload_entry True (setup_realtime True) =
     Inr (True, \<lparr>task = Some TaskCancelled, realtime_loop = Some SlotFalse,
                 cancel_calls = 1, awaited = 1, entry_loaded = False\<rparr>)"
  by (simp add: async_stop_def async_unload_entry_def setup_realtime_def task_cancel_def
      await_task_def)

text \<open>
  Claim C8, evaluated with realtime updates disabled: the stop handler calls \<^verbatim>\<open>cancel\<close> on
  \<^verbatim>\<open>None\<close> and ends with \<^verbatim>\<open>AttributeError\<close>; the unload handler completes and cancels
  nothing.
\<close>

theorem stop_handler_fails_without_task:
  "async_stop (setup_realtime False) = Inl AttributeError \<and>
   async_unload_entry True (setup_realtime False) =
     Inr (True, \<lparr>task = None, realtime_loop = Some SlotNone,
                 cancel_calls = 0, awaited = 0, entry_loaded = False\<rparr>)"
  by (simp add: async_stop_def async_unload_entry_def setup_realtime_def)

end
